theory Spec2Isabelle
  imports Main "HOL-Library.Word"
begin

section \<open>The value model: \<open>json_data\<close>\<close>

text \<open>
  \<open>enum json_type\<close> (program.cpp, lines 42-50), in the order of the source.
\<close>

datatype json_type =
    json_type_null
  | json_type_boolean
  | json_type_integer
  | json_type_real
  | json_type_string
  | json_type_map
  | json_type_array

text \<open>
  \<open>struct json_data\<close> (lines 52-130) is a tag and a union with one active member.
  The tagged union is the datatype below, one constructor for each tag:
  \<^item> \<open>int64_t integer\<close> is a 64-bit word;
  \<^item> \<open>double real\<close> is carried as its 64-bit pattern: the builder and the walk only
    move it around;
  \<^item> \<open>std::string\<close> is a list of bytes;
  \<^item> \<open>std::list<json_data> array\<close> is a list;
  \<^item> \<open>std::unordered_map<std::string, json_data> map\<close> is an association list with
    one entry for each key. The list keeps the order of insertion; the order in
    which the program iterates over an \<open>unordered_map\<close>, which the language
    does not fix, is a parameter of the walk.
\<close>

datatype json_data =
    JNull
  | JBoolean bool
  | JInteger "64 word"
  | JReal "64 word"
  | JString string
  | JMap "(string \<times> json_data) list"
  | JArray "json_data list"

text \<open>The field \<open>type\<close> of the struct.\<close>

fun type_of :: "json_data \<Rightarrow> json_type" where
  "type_of JNull = json_type_null"
| "type_of (JBoolean b) = json_type_boolean"
| "type_of (JInteger i) = json_type_integer"
| "type_of (JReal r) = json_type_real"
| "type_of (JString s) = json_type_string"
| "type_of (JMap m) = json_type_map"
| "type_of (JArray xs) = json_type_array"

text \<open>
  The constructor \<open>json_data(json_type t)\<close> (lines 65-92): the default payload of
  the tag.
\<close>

fun json_data_of_type :: "json_type \<Rightarrow> json_data" where
  "json_data_of_type json_type_null = JNull"
| "json_data_of_type json_type_boolean = JBoolean False"
| "json_data_of_type json_type_integer = JInteger 0"
| "json_data_of_type json_type_real = JReal 0"
| "json_data_of_type json_type_string = JString []"
| "json_data_of_type json_type_map = JMap []"
| "json_data_of_type json_type_array = JArray []"

subsection \<open>The two container operations the builder uses\<close>

text \<open>
  \<open>std::list::emplace_back\<close> (line 152): the new element goes to the end.
\<close>

definition emplace_back :: "json_data \<Rightarrow> json_data list \<Rightarrow> json_data list" where
  "emplace_back v xs = xs @ [v]"

text \<open>
  \<open>std::unordered_map::emplace\<close> (lines 158-162): the element is inserted only if
  the map has no element with that key; otherwise the map is left as it is.
\<close>

definition emplace :: "string \<Rightarrow> json_data \<Rightarrow> (string \<times> json_data) list \<Rightarrow> (string \<times> json_data) list" where
  "emplace k v m = (case map_of m k of None \<Rightarrow> m @ [(k, v)] | Some old \<Rightarrow> m)"

section \<open>Pointers into the tree\<close>

text \<open>
  The builder keeps \<open>json_data *\<close> pointers to nodes of the tree it is building
  (the stack, and the value \<open>insert\<close> returns). \<open>std::list\<close> and
  \<open>std::unordered_map\<close> never move or delete an element here (the program only
  appends and emplaces), so a pointer to a node is the same thing as the way to that
  node from the root: which element of an array, which key of a map, at each level.
  \<open>&current->array.back()\<close> is the way to \<open>current\<close> followed by the index of the
  last element; \<open>&current->map.at(tempKey)\<close> is the way to \<open>current\<close> followed by
  the key.
\<close>

datatype step = Elem nat | Member string

type_synonym json_ptr = "step list"

text \<open>Reading through a pointer: \<open>None\<close> when the way leads nowhere.\<close>

fun child :: "json_data \<Rightarrow> step \<Rightarrow> json_data option" where
  "child (JArray xs) (Elem i) = (if i < length xs then Some (xs ! i) else None)"
| "child (JMap m) (Member k) = map_of m k"
| "child t s = None"

fun deref :: "json_data \<Rightarrow> json_ptr \<Rightarrow> json_data option" where
  "deref t [] = Some t"
| "deref t (s # p) = (case child t s of None \<Rightarrow> None | Some c \<Rightarrow> deref c p)"

text \<open>
  Writing through a pointer: the node at the end of the way is replaced by \<open>f\<close> of
  it, everything else stays. (A way that leads nowhere changes nothing.)
\<close>

fun map_first :: "string \<Rightarrow> (json_data \<Rightarrow> json_data) \<Rightarrow> (string \<times> json_data) list \<Rightarrow> (string \<times> json_data) list" where
  "map_first k f [] = []"
| "map_first k f ((k', v) # m) = (if k' = k then (k', f v) # m else (k', v) # map_first k f m)"

fun modify :: "(json_data \<Rightarrow> json_data) \<Rightarrow> json_ptr \<Rightarrow> json_data \<Rightarrow> json_data" where
  "modify f [] t = f t"
| "modify f (Elem i # p) (JArray xs) =
     (if i < length xs then JArray (xs[i := modify f p (xs ! i)]) else JArray xs)"
| "modify f (Member k # p) (JMap m) = JMap (map_first k (modify f p) m)"
| "modify f (s # p) t = t"

section \<open>The builder: \<open>json_data_state\<close>\<close>

text \<open>
  \<open>struct json_data_state\<close> (lines 132-136). The head of the list is the top of the
  \<open>std::stack\<close>; \<open>root\<close> is \<open>None\<close> for \<open>nullptr\<close>.
\<close>

record json_data_state =
  stack :: "json_ptr list"
  tempKey :: string
  root :: "json_data option"

text \<open>\<open>json_data_state state = {{}, "", nullptr}\<close> (line 323).\<close>

definition initial_state :: json_data_state where
  "initial_state = \<lparr>stack = [], tempKey = [], root = None\<rparr>"

text \<open>
  The program has no error codes of its own. \<open>insert\<close> returns \<open>nullptr\<close> in two
  places (line 147: the root is set and the stack is empty; line 166: the top of
  the stack is neither an array nor a map), in both before it has constructed or
  stored anything; the callback then returns 0 and the parser stops. The two places
  give the caller the same result, and so they do here:
  \<^item> \<open>Cancelled\<close>: \<open>insert\<close> returned \<open>nullptr\<close> and the callback returned 0.
  Two situations in which the C++ has no defined behaviour are failures of their own:
  \<^item> \<open>StackUnderflow\<close>: \<open>stack.pop()\<close> on an empty \<open>std::stack\<close> (lines 299 and
    318);
  \<^item> \<open>DanglingPointer\<close>: the top of the stack leads to no node of the tree. This
    cannot happen from \<open>initial_state\<close> (lemma \<open>reachable_stack_valid\<close>).
\<close>

datatype failure =
    Cancelled
  | StackUnderflow
  | DanglingPointer

text \<open>
  \<open>json_data_state::insert\<close> (lines 138-167). The argument \<open>v\<close> is the node that
  \<open>json_data(std::forward<Args>(args)...)\<close> constructs. The result is the pointer
  returned, with the state after the call.
\<close>

definition insert_json :: "json_data_state \<Rightarrow> json_data \<Rightarrow> failure + (json_ptr \<times> json_data_state)" where
  "insert_json state v =
     (case root state of
        None \<Rightarrow> Inr ([], state\<lparr>root := Some v\<rparr>)
      | Some r \<Rightarrow>
          (case stack state of
             [] \<Rightarrow> Inl Cancelled
           | current # rest \<Rightarrow>
               (case deref r current of
                  None \<Rightarrow> Inl DanglingPointer
                | Some (JArray xs) \<Rightarrow>
                    Inr (current @ [Elem (length xs)],
                         state\<lparr>root := Some (modify (\<lambda>c. JArray (emplace_back v xs)) current r)\<rparr>)
                | Some (JMap m) \<Rightarrow>
                    Inr (current @ [Member (tempKey state)],
                         state\<lparr>root := Some (modify (\<lambda>c. JMap (emplace (tempKey state) v m)) current r)\<rparr>)
                | Some other \<Rightarrow> Inl Cancelled)))"

text \<open>
  The events are the callbacks of \<open>reader_cb\<close> (lines 244-321), in the order of
  the table, named after the comments of the source. (The fifth entry of the table,
  the raw number callback, is \<open>nullptr\<close>.) The parameters \<open>size\<close> and \<open>cte_pool\<close>
  are not used by the callbacks. \<open>ReadBoolean\<close> carries the \<open>int\<close> of the
  callback after its cast to \<open>bool\<close>.
\<close>

datatype event =
    ReadNull
  | ReadBoolean bool
  | ReadInteger "64 word"
  | ReadDouble "64 word"
  | ReadString string
  | StartMap
  | MapKey string
  | EndMap
  | StartArray
  | EndArray

text \<open>
  The node an event hands to \<open>insert\<close>, if it calls \<open>insert\<close> at all: the
  constructor of \<open>json_data\<close> that the arguments of the call select.
\<close>

fun inserted_value :: "event \<Rightarrow> json_data option" where
  "inserted_value ReadNull = Some (json_data_of_type json_type_null)"
| "inserted_value (ReadBoolean b) = Some (JBoolean b)"
| "inserted_value (ReadInteger i) = Some (JInteger i)"
| "inserted_value (ReadDouble r) = Some (JReal r)"
| "inserted_value (ReadString s) = Some (JString s)"
| "inserted_value StartMap = Some (json_data_of_type json_type_map)"
| "inserted_value StartArray = Some (json_data_of_type json_type_array)"
| "inserted_value (MapKey k) = None"
| "inserted_value EndMap = None"
| "inserted_value EndArray = None"

text \<open>
  The callbacks. \<open>Inr\<close> is the state after a callback that returned 1, \<open>Inl\<close> a
  callback that returned 0 (or left defined behaviour).
  The five scalar callbacks are \<open>return (int) (state->insert(...) != nullptr)\<close>.
\<close>

definition read_scalar :: "json_data_state \<Rightarrow> json_data \<Rightarrow> failure + json_data_state" where
  "read_scalar state v =
     (case insert_json state v of Inl e \<Rightarrow> Inl e | Inr (jdata, state') \<Rightarrow> Inr state')"

text \<open>
  \<open>start map\<close> and \<open>start array\<close> (lines 276-287 and 302-313): insert, return 0 on
  \<open>nullptr\<close>, otherwise push the pointer returned.
\<close>

definition start_container :: "json_data_state \<Rightarrow> json_type \<Rightarrow> failure + json_data_state" where
  "start_container state t =
     (case insert_json state (json_data_of_type t) of
        Inl e \<Rightarrow> Inl e
      | Inr (jdata, state') \<Rightarrow> Inr (state'\<lparr>stack := jdata # stack state'\<rparr>))"

text \<open>\<open>end map\<close> and \<open>end array\<close> (lines 295-301 and 314-320): pop, return 1.\<close>

definition end_container :: "json_data_state \<Rightarrow> failure + json_data_state" where
  "end_container state =
     (case stack state of
        [] \<Rightarrow> Inl StackUnderflow
      | current # rest \<Rightarrow> Inr (state\<lparr>stack := rest\<rparr>))"

fun reader_cb :: "json_data_state \<Rightarrow> event \<Rightarrow> failure + json_data_state" where
  "reader_cb state ReadNull = read_scalar state (json_data_of_type json_type_null)"
| "reader_cb state (ReadBoolean b) = read_scalar state (JBoolean b)"
| "reader_cb state (ReadInteger i) = read_scalar state (JInteger i)"
| "reader_cb state (ReadDouble r) = read_scalar state (JReal r)"
| "reader_cb state (ReadString s) = read_scalar state (JString s)"
| "reader_cb state StartMap = start_container state json_type_map"
| "reader_cb state (MapKey k) = Inr (state\<lparr>tempKey := k\<rparr>)"
| "reader_cb state EndMap = end_container state"
| "reader_cb state StartArray = start_container state json_type_array"
| "reader_cb state EndArray = end_container state"

text \<open>
  The parser calls the callbacks one event after the other and stops at the first
  one that returns 0.
\<close>

fun parse_events :: "json_data_state \<Rightarrow> event list \<Rightarrow> failure + json_data_state" where
  "parse_events state [] = Inr state"
| "parse_events state (e # es) =
     (case reader_cb state e of Inl f \<Rightarrow> Inl f | Inr state' \<Rightarrow> parse_events state' es)"

section \<open>The walk: \<open>generate_json\<close>\<close>








section \<open>Well-formed states\<close>

text \<open>
  Every pointer on the stack leads to a node of the tree; before the first value,
  when there is no tree, the stack is empty.
\<close>

definition stack_valid :: "json_data_state \<Rightarrow> bool" where
  "stack_valid state =
     (case root state of
        None \<Rightarrow> stack state = []
      | Some r \<Rightarrow> list_all (\<lambda>p. deref r p \<noteq> None) (stack state))"


section \<open>Documents and their events\<close>



text \<open>
  The state is about to store a value where there is none yet: the open container
  is not a map that has the key of \<open>tempKey\<close> already.
\<close>

definition key_is_new :: "json_data_state \<Rightarrow> bool" where
  "key_is_new state =
     (case root state of
        None \<Rightarrow> True
      | Some r \<Rightarrow>
          (case stack state of
             [] \<Rightarrow> True
           | current # rest \<Rightarrow>
               (case deref r current of
                  Some (JMap m) \<Rightarrow> map_of m (tempKey state) = None
                | other \<Rightarrow> True)))"

section \<open>Facts about pointers\<close>

lemma deref_append: "deref t (p @ q) = (case deref t p of None \<Rightarrow> None | Some c \<Rightarrow> deref c q)"
  by (induction p arbitrary: t) (auto split: option.splits)

lemma map_of_map_first:
  "map_of (map_first k f m) k' = (if k' = k then map_option f (map_of m k) else map_of m k')"
  by (induction m) auto

lemma child_modify_same:
  "child t s = Some c \<Longrightarrow> child (modify f (s # p) t) s = Some (modify f p c)"
  by (cases "(t, s)" rule: child.cases) (auto simp: map_of_map_first split: if_splits)

lemma child_modify_other:
  "s' \<noteq> s \<Longrightarrow> child (modify f (s # p) t) s' = child t s'"
  by (cases "(t, s)" rule: child.cases; cases s') (auto simp: map_of_map_first)

lemma deref_modify_same:
  "deref t p = Some c \<Longrightarrow> deref (modify f p t) p = Some (f c)"
proof (induction p arbitrary: t)
  case Nil
  then show ?case by simp
next
  case (Cons s p)
  from Cons.prems obtain d where d: "child t s = Some d" and c: "deref d p = Some c"
    by (auto split: option.splits)
  from child_modify_same [OF d] Cons.IH [OF c] show ?case by simp
qed

text \<open>A write that keeps every way of the node it changes keeps every way of the tree.\<close>

lemma deref_modify_valid:
  assumes "deref t p = Some c"
    and "\<And>q. deref c q \<noteq> None \<Longrightarrow> deref (f c) q \<noteq> None"
    and "deref t q \<noteq> None"
  shows "deref (modify f p t) q \<noteq> None"
  using assms(1,3)
proof (induction p arbitrary: t q)
  case Nil
  with assms(2) show ?case by simp
next
  case (Cons s p)
  from Cons.prems(1) obtain d where d: "child t s = Some d" and c: "deref d p = Some c"
    by (auto split: option.splits)
  show ?case
  proof (cases q)
    case Nil
    then show ?thesis by simp
  next
    case (Cons s' q')
    show ?thesis
    proof (cases "s' = s")
      case True
      with Cons.prems(2) Cons d have "deref d q' \<noteq> None" by simp
      from Cons.IH [OF c this] child_modify_same [OF d] True Cons show ?thesis by simp
    next
      case False
      with Cons.prems(2) Cons show ?thesis by (simp add: child_modify_other)
    qed
  qed
qed

lemma deref_array_grows:
  "deref (JArray xs) q \<noteq> None \<Longrightarrow> deref (JArray (emplace_back v xs)) q \<noteq> None"
proof (cases q)
  case Nil
  then show ?thesis by simp
next
  case (Cons s q')
  assume "deref (JArray xs) q \<noteq> None"
  with Cons show ?thesis
    by (cases s) (auto simp: emplace_back_def nth_append split: if_splits)
qed

lemma map_of_emplace:
  "map_of (emplace k v m) k' = (case map_of m k' of Some x \<Rightarrow> Some x | None \<Rightarrow> if k' = k then Some v else None)"
  by (auto simp: emplace_def map_of_append map_add_def split: option.splits)

lemma deref_map_grows:
  "deref (JMap m) q \<noteq> None \<Longrightarrow> deref (JMap (emplace k v m)) q \<noteq> None"
proof (cases q)
  case Nil
  then show ?thesis by simp
next
  case (Cons s q')
  assume "deref (JMap m) q \<noteq> None"
  with Cons show ?thesis
    by (cases s) (auto simp: map_of_emplace split: option.splits)
qed

section \<open>The stack never dangles\<close>

lemma insert_json_valid:
  assumes "stack_valid state" and "insert_json state v = Inr (jdata, state')"
  shows "stack_valid state' \<and> stack state' = stack state
         \<and> (\<exists>r'. root state' = Some r' \<and> deref r' jdata \<noteq> None)"
proof (cases "root state")
  case None
  with assms show ?thesis by (auto simp: insert_json_def stack_valid_def)
next
  case (Some r)
  with assms(2) obtain current rest where st: "stack state = current # rest"
    by (cases "stack state") (auto simp: insert_json_def)
  from assms(2) Some st obtain c where c: "deref r current = Some c"
    by (cases "deref r current") (auto simp: insert_json_def)
  have valid: "list_all (\<lambda>p. deref r p \<noteq> None) (stack state)"
    using assms(1) Some by (simp add: stack_valid_def)
  show ?thesis
  proof (cases c)
    case (JArray xs)
    let ?f = "\<lambda>c. JArray (emplace_back v xs)"
    have keep: "deref (modify ?f current r) q \<noteq> None" if "deref r q \<noteq> None" for q
    proof (rule deref_modify_valid [OF c _ that])
      fix q' assume "deref c q' \<noteq> None"
      with JArray show "deref (?f c) q' \<noteq> None" by (simp add: deref_array_grows)
    qed
    from assms(2) Some st c JArray
    have eq: "state' = state\<lparr>root := Some (modify ?f current r)\<rparr>"
      and ptr: "jdata = current @ [Elem (length xs)]"
      by (auto simp: insert_json_def)
    have "deref (modify ?f current r) jdata \<noteq> None"
      using deref_modify_same [OF c, of ?f] by (simp add: ptr deref_append emplace_back_def)
    with eq valid keep show ?thesis
      by (auto simp: stack_valid_def list_all_iff)
  next
    case (JMap m)
    let ?f = "\<lambda>c. JMap (emplace (tempKey state) v m)"
    have keep: "deref (modify ?f current r) q \<noteq> None" if "deref r q \<noteq> None" for q
    proof (rule deref_modify_valid [OF c _ that])
      fix q' assume "deref c q' \<noteq> None"
      with JMap show "deref (?f c) q' \<noteq> None" by (simp add: deref_map_grows)
    qed
    from assms(2) Some st c JMap
    have eq: "state' = state\<lparr>root := Some (modify ?f current r)\<rparr>"
      and ptr: "jdata = current @ [Member (tempKey state)]"
      by (auto simp: insert_json_def)
    have "deref (modify ?f current r) jdata \<noteq> None"
      using deref_modify_same [OF c, of ?f]
      by (simp add: ptr deref_append map_of_emplace split: option.splits)
    with eq valid keep show ?thesis
      by (auto simp: stack_valid_def list_all_iff)
  qed (use assms(2) Some st c in \<open>auto simp: insert_json_def\<close>)
qed

lemma reader_cb_valid:
  assumes "stack_valid state" and "reader_cb state e = Inr state'"
  shows "stack_valid state'"
proof (cases "inserted_value e")
  case None
  with assms show ?thesis
    by (cases e) (auto simp: stack_valid_def end_container_def split: option.splits list.splits)
next
  case (Some v)
  from assms(2) obtain jdata s1 where ins: "insert_json state v = Inr (jdata, s1)"
    and s': "state' = s1 \<or> state' = s1\<lparr>stack := jdata # stack s1\<rparr>"
    using Some by (cases e) (auto simp: read_scalar_def start_container_def split: sum.splits)
  from insert_json_valid [OF assms(1) ins] s' show ?thesis
    by (auto simp: stack_valid_def)
qed

lemma parse_events_valid:
  "stack_valid state \<Longrightarrow> parse_events state es = Inr state' \<Longrightarrow> stack_valid state'"
  by (induction es arbitrary: state) (auto split: sum.splits dest: reader_cb_valid)

lemma insert_json_not_dangling:
  "stack_valid state \<Longrightarrow> insert_json state v \<noteq> Inl DanglingPointer"
  by (auto simp: insert_json_def stack_valid_def split: option.splits list.splits json_data.splits)

lemma reachable_stack_valid:
  assumes "parse_events initial_state es = Inr state"
  shows "stack_valid state" and "reader_cb state e \<noteq> Inl DanglingPointer"
proof -
  have "stack_valid initial_state" by (simp add: stack_valid_def initial_state_def)
  from parse_events_valid [OF this assms] show v: "stack_valid state" .
  show "reader_cb state e \<noteq> Inl DanglingPointer"
    using insert_json_not_dangling [OF v]
    by (cases e) (auto simp: read_scalar_def start_container_def end_container_def split: sum.splits list.splits)
qed


text \<open>What a callback that inserts does, in one equation.\<close>

lemma reader_cb_inserted:
  "inserted_value e = Some v \<Longrightarrow>
   reader_cb state e =
     (case insert_json state v of
        Inl f \<Rightarrow> Inl f
      | Inr (jdata, state') \<Rightarrow>
          Inr (if e = StartMap \<or> e = StartArray then state'\<lparr>stack := jdata # stack state'\<rparr> else state'))"
  by (cases e) (auto simp: read_scalar_def start_container_def split: sum.splits)

lemma insert_json_tempKey:
  "insert_json state v = Inr (jdata, state') \<Longrightarrow> tempKey state' = tempKey state"
  by (auto simp: insert_json_def split: option.splits list.splits json_data.splits)

lemmas builder_defs = initial_state_def insert_json_def read_scalar_def start_container_def
  end_container_def emplace_def emplace_back_def

section \<open>Writes through pointers\<close>

lemma map_first_cong: "(\<And>v. f v = g v) \<Longrightarrow> map_first k f m = map_first k g m"
  by (induction m) auto

lemma map_first_map_first: "map_first k f (map_first k g m) = map_first k (\<lambda>v. f (g v)) m"
  by (induction m) auto


lemma map_first_append_new:
  "map_of m k = None \<Longrightarrow> map_first k f (m @ [(k, v)]) = m @ [(k, f v)]"
  by (induction m) (auto split: if_splits)

lemma modify_append: "modify f (p @ q) t = modify (modify f q) p t"
proof (induction p arbitrary: t)
  case Nil
  show ?case by simp
next
  case (Cons s p)
  show ?case
    by (cases "(f, s # p, t)" rule: modify.cases) (auto simp: Cons.IH intro: map_first_cong)
qed

lemma modify_modify: "modify f p (modify g p t) = modify (\<lambda>c. f (g c)) p t"
proof (induction p arbitrary: t)
  case Nil
  show ?case by simp
next
  case (Cons s p)
  show ?case
    by (cases "(g, s # p, t)" rule: modify.cases)
      (auto simp: Cons.IH map_first_map_first intro: map_first_cong)
qed



section \<open>A document arrives as its events\<close>

text \<open>
  Where \<open>insert\<close> stores a new value, the value can be written again through the
  pointer returned, and writing \<open>v\<close> there is what inserting \<open>v\<close> in the first
  place would have done.
\<close>

lemma insert_json_whole:
  assumes "key_is_new state" and "insert_json state v0 = Inr (p, state0)"
  shows "\<exists>r0. root state0 = Some r0 \<and> deref r0 p = Some v0
           \<and> stack state0 = stack state \<and> tempKey state0 = tempKey state
           \<and> (\<forall>v. insert_json state v = Inr (p, state0\<lparr>root := Some (modify (\<lambda>x. v) p r0)\<rparr>))"
proof (cases "root state")
  case None
  with assms(2) show ?thesis by (auto simp: insert_json_def)
next
  case (Some r)
  with assms(2) obtain current rest where st: "stack state = current # rest"
    by (cases "stack state") (auto simp: insert_json_def)
  from assms(2) Some st obtain c where c: "deref r current = Some c"
    by (cases "deref r current") (auto simp: insert_json_def)
  show ?thesis
  proof (cases c)
    case (JArray xs)
    let ?r0 = "modify (\<lambda>c. JArray (emplace_back v0 xs)) current r"
    from assms(2) Some st c JArray
    have eq: "state0 = state\<lparr>root := Some ?r0\<rparr>" and ptr: "p = current @ [Elem (length xs)]"
      by (auto simp: insert_json_def)
    have "deref ?r0 p = Some v0"
      using deref_modify_same [OF c, of "\<lambda>c. JArray (emplace_back v0 xs)"]
      by (simp add: ptr deref_append emplace_back_def)
    moreover have "insert_json state v = Inr (p, state0\<lparr>root := Some (modify (\<lambda>x. v) p ?r0)\<rparr>)" for v
      using Some st c JArray
      by (simp add: insert_json_def eq ptr modify_append modify_modify emplace_back_def)
    ultimately show ?thesis by (simp add: eq)
  next
    case (JMap m)
    from assms(1) Some st c JMap have new: "map_of m (tempKey state) = None"
      by (simp add: key_is_new_def)
    let ?r0 = "modify (\<lambda>c. JMap (emplace (tempKey state) v0 m)) current r"
    from assms(2) Some st c JMap
    have eq: "state0 = state\<lparr>root := Some ?r0\<rparr>" and ptr: "p = current @ [Member (tempKey state)]"
      by (auto simp: insert_json_def)
    have "deref ?r0 p = Some v0"
      using deref_modify_same [OF c, of "\<lambda>c. JMap (emplace (tempKey state) v0 m)"] new
      by (simp add: ptr deref_append emplace_def map_add_def)
    moreover have "insert_json state v = Inr (p, state0\<lparr>root := Some (modify (\<lambda>x. v) p ?r0)\<rparr>)" for v
      using Some st c JMap new
      by (simp add: insert_json_def eq ptr modify_append modify_modify emplace_def map_first_append_new)
    ultimately show ?thesis by (simp add: eq)
  qed (use assms(2) Some st c in \<open>auto simp: insert_json_def\<close>)
qed








section \<open>Nodes stay where they are\<close>












section \<open>The calls of the walk\<close>

















section \<open>Duplicate keys\<close>

text \<open>
  C1. The spec has a repeated key replace the earlier value, so that the events of
  \<open>{"k":1,"k":2}\<close> give one member \<open>k\<close> with value 2. In the code,
  \<open>map.emplace\<close> (lines 158-162) does nothing when the key is there already, and
  \<open>insert\<close> returns the address of the element that was there (line 163) as if it
  were the new one: the built map has one member \<open>k\<close>, with value 1.
\<close>

theorem duplicate_key_keeps_first_value:
  "parse_events initial_state
     [StartMap, MapKey ''k'', ReadInteger 1, MapKey ''k'', ReadInteger 2, EndMap]
   = Inr \<lparr>stack = [], tempKey = ''k'', root = Some (JMap [(''k'', JInteger 1)])\<rparr>"
  by (simp add: builder_defs)

section \<open>End of a container\<close>

text \<open>
  The end callbacks do not look at what they pop: an \<open>EndArray\<close> closes an open map
  and the callback returns 1.
\<close>

theorem end_array_pops_a_map:
  "parse_events initial_state [StartMap]
     = Inr \<lparr>stack = [[]], tempKey = [], root = Some (JMap [])\<rparr>
   \<and> reader_cb \<lparr>stack = [[]], tempKey = [], root = Some (JMap [])\<rparr> EndArray
     = Inr \<lparr>stack = [], tempKey = [], root = Some (JMap [])\<rparr>"
  by (simp add: builder_defs)

text \<open>
  C2, as the code has it. When the stack is not empty, \<open>EndMap\<close> and \<open>EndArray\<close>
  alike pop its top, whatever kind of node the top points to, and return 1; root
  and key buffer stay. (On an empty stack the callbacks call \<open>pop()\<close> all the
  same; the code has no check and no error for it.)
\<close>

theorem end_container_pops:
  "stack state = current # rest \<Longrightarrow>
   reader_cb state EndMap = Inr (state\<lparr>stack := rest\<rparr>) \<and>
   reader_cb state EndArray = Inr (state\<lparr>stack := rest\<rparr>)"
  by (simp add: end_container_def)

theorem end_container_pops_witness:
  "stack \<lparr>stack = [[Elem 0], []], tempKey = [], root = Some (JArray [JMap []])\<rparr> = [Elem 0] # [[]]
   \<and> reader_cb \<lparr>stack = [[Elem 0], []], tempKey = [], root = Some (JArray [JMap []])\<rparr> EndArray
       = Inr \<lparr>stack = [[]], tempKey = [], root = Some (JArray [JMap []])\<rparr>"
  using end_container_pops [of "\<lparr>stack = [[Elem 0], []], tempKey = [], root = Some (JArray [JMap []])\<rparr>" "[Elem 0]" "[[]]"]
  by simp

section \<open>Values in a map\<close>

text \<open>
  A value that arrives in a map without a key before it is not refused: it goes
  under the content of \<open>tempKey\<close>, here the empty string of \<open>initial_state\<close>.
\<close>

theorem value_without_key_is_inserted:
  "parse_events initial_state [StartMap, ReadInteger 1, EndMap]
   = Inr \<lparr>stack = [], tempKey = [], root = Some (JMap [([], JInteger 1)])\<rparr>"
  by (simp add: builder_defs)

text \<open>
  C3, as the code has it. When the top of the stack points to a map, a scalar or a
  container-begin event is accepted whether or not a key event came before it; and
  when the map has no member under the current content of \<open>tempKey\<close> (the last
  key seen, or the empty string if there was none), the value goes under that key.
\<close>

theorem insert_into_map_uses_tempKey:
  assumes "root state = Some r" and "stack state = current # rest"
    and "deref r current = Some (JMap m)"
    and "inserted_value e = Some v"
  shows "\<exists>state' r'. reader_cb state e = Inr state' \<and> root state' = Some r' \<and>
           (map_of m (tempKey state) = None \<longrightarrow>
              deref r' current = Some (JMap (m @ [(tempKey state, v)])))"
  using assms deref_modify_same [OF assms(3)]
  by (auto simp: reader_cb_inserted insert_json_def emplace_def split: option.splits)

theorem insert_into_map_uses_tempKey_witness:
  "(\<exists>state' r'. reader_cb \<lparr>stack = [[]], tempKey = ''a'', root = Some (JMap [(''b'', JNull)])\<rparr> (ReadBoolean True) = Inr state'
      \<and> root state' = Some r'
      \<and> deref r' [] = Some (JMap [(''b'', JNull), (''a'', JBoolean True)]))
   \<and> (\<exists>state' r'. reader_cb \<lparr>stack = [[]], tempKey = ''b'', root = Some (JMap [(''b'', JNull)])\<rparr> StartArray = Inr state'
      \<and> root state' = Some r')"
  using insert_into_map_uses_tempKey [of "\<lparr>stack = [[]], tempKey = ''a'', root = Some (JMap [(''b'', JNull)])\<rparr>"
      "JMap [(''b'', JNull)]" "[]" "[]" "[(''b'', JNull)]" "ReadBoolean True" "JBoolean True"]
    insert_into_map_uses_tempKey [of "\<lparr>stack = [[]], tempKey = ''b'', root = Some (JMap [(''b'', JNull)])\<rparr>"
      "JMap [(''b'', JNull)]" "[]" "[]" "[(''b'', JNull)]" StartArray "JArray []"]
  by simp

section \<open>The map key callback\<close>

text \<open>
  A key event is accepted when nothing is open, and when the open container is an
  array.
\<close>

theorem map_key_outside_a_map:
  "reader_cb initial_state (MapKey ''k'') = Inr \<lparr>stack = [], tempKey = ''k'', root = None\<rparr>
   \<and> parse_events initial_state [StartArray, MapKey ''k'', ReadNull]
     = Inr \<lparr>stack = [[]], tempKey = ''k'', root = Some (JArray [JNull])\<rparr>"
  by (simp add: builder_defs)

text \<open>
  C4, as the code has it. The map key callback (lines 288-294) looks at neither the
  stack nor the root: in every state it stores the key in \<open>tempKey\<close>, over whatever
  was there, and returns 1. Stack and root are left as they were.
\<close>

theorem map_key_always_accepted:
  "reader_cb state (MapKey k) = Inr (state\<lparr>tempKey := k\<rparr>)"
  by simp

section \<open>The key buffer\<close>

text \<open>
  The key that was used for the inner map is still in the buffer afterwards, and
  the next value goes under it again.
\<close>

theorem tempKey_used_twice:
  "parse_events initial_state [StartMap, MapKey ''k'', StartMap, ReadInteger 1]
   = Inr \<lparr>stack = [[Member ''k''], []], tempKey = ''k'',
          root = Some (JMap [(''k'', JMap [(''k'', JInteger 1)])])\<rparr>"
  by (simp add: builder_defs)

text \<open>
  C5, as the code has it. An insertion does not touch the key buffer: after a
  scalar or container-begin event that was accepted, \<open>tempKey\<close> holds what it held
  before, until the next key event overwrites it.
\<close>

theorem insertion_keeps_tempKey:
  "inserted_value e = Some v \<Longrightarrow> reader_cb state e = Inr state' \<Longrightarrow> tempKey state' = tempKey state"
  by (auto simp: reader_cb_inserted split: sum.splits dest: insert_json_tempKey)

theorem insertion_keeps_tempKey_witness:
  "inserted_value StartArray = Some (JArray [])
   \<and> reader_cb \<lparr>stack = [[]], tempKey = ''k'', root = Some (JMap [])\<rparr> StartArray
       = Inr \<lparr>stack = [[Member ''k''], []], tempKey = ''k'', root = Some (JMap [(''k'', JArray [])])\<rparr>
   \<and> tempKey \<lparr>stack = [[Member ''k''], []], tempKey = ''k'', root = Some (JMap [(''k'', JArray [])])\<rparr>
       = tempKey \<lparr>stack = [[]], tempKey = ''k'', root = Some (JMap [])\<rparr>"
  using insertion_keeps_tempKey [of StartArray "JArray []"
      "\<lparr>stack = [[]], tempKey = ''k'', root = Some (JMap [])\<rparr>"
      "\<lparr>stack = [[Member ''k''], []], tempKey = ''k'', root = Some (JMap [(''k'', JArray [])])\<rparr>"]
  by (simp add: builder_defs)

section \<open>A second top-level value\<close>

text \<open>
  The failure has no kind. A second top-level value, and a value that arrives while
  the top of the stack points to a scalar (line 166), end in the same result: the
  callback returns 0.
\<close>

theorem second_value_failure_has_no_kind:
  "parse_events initial_state [ReadNull, ReadNull] = Inl Cancelled
   \<and> reader_cb \<lparr>stack = [], tempKey = [], root = Some JNull\<rparr> ReadNull = Inl Cancelled
   \<and> reader_cb \<lparr>stack = [[Member ''k''], []], tempKey = ''k'', root = Some (JMap [(''k'', JInteger 1)])\<rparr>
         ReadNull = Inl Cancelled"
  by (simp add: builder_defs)

text \<open>
  C6, as the code has it. When the root is set and the stack is empty, every scalar
  and every container-begin event fails: \<open>insert\<close> returns \<open>nullptr\<close> at line 147,
  before it constructs or stores anything, the callback returns 0 and no later
  event is looked at. The failure is the one signal the code has; it names no kind
  of error.
\<close>

theorem second_top_level_value_fails:
  "root state = Some r \<Longrightarrow> stack state = [] \<Longrightarrow> inserted_value e = Some v \<Longrightarrow>
   insert_json state v = Inl Cancelled \<and> reader_cb state e = Inl Cancelled
   \<and> parse_events state (e # es) = Inl Cancelled"
  by (simp add: reader_cb_inserted insert_json_def)

theorem second_top_level_value_fails_witness:
  "root \<lparr>stack = [], tempKey = [], root = Some (JArray [])\<rparr> = Some (JArray [])
   \<and> stack \<lparr>stack = [], tempKey = [], root = Some (JArray [])\<rparr> = []
   \<and> inserted_value StartMap = Some (JMap [])
   \<and> reader_cb \<lparr>stack = [], tempKey = [], root = Some (JArray [])\<rparr> StartMap = Inl Cancelled
   \<and> parse_events \<lparr>stack = [], tempKey = [], root = Some (JArray [])\<rparr> [StartMap, EndMap] = Inl Cancelled"
  using second_top_level_value_fails [of "\<lparr>stack = [], tempKey = [], root = Some (JArray [])\<rparr>" "JArray []" StartMap "JMap []" "[EndMap]"]
  by simp

section \<open>Opening a container\<close>

text \<open>
  Where the open container is not a map that has the key already, a begin callback
  does push a pointer to the empty container it has just stored.
\<close>

lemma start_container_new:
  assumes "key_is_new state" and "start_container state t = Inr state'"
  shows "\<exists>jdata r'. stack state' = jdata # stack state \<and> root state' = Some r'
           \<and> deref r' jdata = Some (json_data_of_type t)"
proof -
  from assms(2) obtain jdata state0 where ins: "insert_json state (json_data_of_type t) = Inr (jdata, state0)"
    and eq: "state' = state0\<lparr>stack := jdata # stack state0\<rparr>"
    by (auto simp: start_container_def split: sum.splits)
  from insert_json_whole [OF assms(1) ins] eq show ?thesis by auto
qed

text \<open>
  C8. The spec has the begin callbacks push a pointer to the container they have
  just created. With a key that the open map has already, nothing is created and
  the pointer pushed is the one to the member that was there: after the events of
  \<open>{"k":[1],"k":{\<close> the top of the stack points to the array \<open>[1]\<close>, and the map
  has no new member.
\<close>

theorem start_map_pushes_the_old_value:
  "parse_events initial_state
     [StartMap, MapKey ''k'', StartArray, ReadInteger 1, EndArray, MapKey ''k'', StartMap]
   = Inr \<lparr>stack = [[Member ''k''], []], tempKey = ''k'',
          root = Some (JMap [(''k'', JArray [JInteger 1])])\<rparr>"
  by (simp add: builder_defs)

section \<open>Order of the elements of an array\<close>



section \<open>What the stack points to\<close>

text \<open>
  C10. The spec has every pointer on the stack point to a map or an array. After
  the events of \<open>{"k":1,"k":[\<close> the top of the stack points to the integer 1:
  \<open>emplace\<close> stored no array, and the pointer pushed is the one to the member
  that was there.
\<close>

theorem scalar_on_the_stack:
  "parse_events initial_state [StartMap, MapKey ''k'', ReadInteger 1, MapKey ''k'', StartArray]
     = Inr \<lparr>stack = [[Member ''k''], []], tempKey = ''k'', root = Some (JMap [(''k'', JInteger 1)])\<rparr>
   \<and> deref (JMap [(''k'', JInteger 1)]) [Member ''k''] = Some (JInteger 1)
   \<and> type_of (JInteger 1) = json_type_integer"
  by (simp add: builder_defs)

end
